theory Spec2Isabelle
  imports Complex_Main
begin

section \<open>Numbers\<close>




section \<open>Adaptive rate limiter (utils/rate\_limiter.py)\<close>

text \<open>
  \<open>SmartRateLimiter\<close> keeps five per-domain dictionaries. Three of them are
  \<open>defaultdict\<close>s: reading a missing key yields the default (0 for the counters, 1.0 for
  the multiplier). The fields carry the prefix \<open>rl_\<close> where the scraper has a field of
  the same name.
\<close>

record SmartRateLimiter =
  rl_domain_requests :: "string \<rightharpoonup> real list"
  rl_domain_failures :: "string \<rightharpoonup> nat"
  rl_domain_last_request :: "string \<rightharpoonup> real"
  success_streak :: "string \<rightharpoonup> nat"
  adaptive_multiplier :: "string \<rightharpoonup> real"

definition SmartRateLimiter_init :: SmartRateLimiter where
  "SmartRateLimiter_init =
     \<lparr>rl_domain_requests = Map.empty, rl_domain_failures = Map.empty,
      rl_domain_last_request = Map.empty, success_streak = Map.empty,
      adaptive_multiplier = Map.empty\<rparr>"

definition dd_get :: "'v \<Rightarrow> ('k \<rightharpoonup> 'v) \<Rightarrow> 'k \<Rightarrow> 'v" where
  "dd_get dflt m k = (case m k of None \<Rightarrow> dflt | Some v \<Rightarrow> v)"

definition failures_of :: "SmartRateLimiter \<Rightarrow> string \<Rightarrow> nat" where
  "failures_of rl domain = dd_get 0 (rl_domain_failures rl) domain"

definition streak_of :: "SmartRateLimiter \<Rightarrow> string \<Rightarrow> nat" where
  "streak_of rl domain = dd_get 0 (success_streak rl) domain"

definition multiplier_of :: "SmartRateLimiter \<Rightarrow> string \<Rightarrow> real" where
  "multiplier_of rl domain = dd_get 1 (adaptive_multiplier rl) domain"

definition record_success :: "SmartRateLimiter \<Rightarrow> string \<Rightarrow> SmartRateLimiter" where
  "record_success rl domain =
     (let rl1 = rl\<lparr>rl_domain_failures := (rl_domain_failures rl)(domain \<mapsto> 0)\<rparr>;
          rl2 = rl1\<lparr>success_streak := (success_streak rl1)(domain \<mapsto> streak_of rl1 domain + 1)\<rparr>
      in if 5 \<le> streak_of rl2 domain
         then (let current_mult = multiplier_of rl2 domain
               in rl2\<lparr>adaptive_multiplier :=
                         (adaptive_multiplier rl2)(domain \<mapsto> max (8 / 10) (current_mult * (9 / 10))),
                       success_streak := (success_streak rl2)(domain \<mapsto> 0)\<rparr>)
         else rl2)"

definition record_failure :: "SmartRateLimiter \<Rightarrow> string \<Rightarrow> SmartRateLimiter" where
  "record_failure rl domain =
     (let rl1 = rl\<lparr>rl_domain_failures := (rl_domain_failures rl)(domain \<mapsto> failures_of rl domain + 1)\<rparr>;
          rl2 = rl1\<lparr>success_streak := (success_streak rl1)(domain \<mapsto> 0)\<rparr>;
          current_mult = multiplier_of rl2 domain
      in rl2\<lparr>adaptive_multiplier :=
                (adaptive_multiplier rl2)(domain \<mapsto> min 3 (current_mult * (12 / 10)))\<rparr>)"

text \<open>A recording is a call of one of the two methods for some domain.\<close>

datatype recording = Success string | Failure string

fun record_one :: "SmartRateLimiter \<Rightarrow> recording \<Rightarrow> SmartRateLimiter" where
  "record_one rl (Success domain) = record_success rl domain"
| "record_one rl (Failure domain) = record_failure rl domain"

definition record_all :: "SmartRateLimiter \<Rightarrow> recording list \<Rightarrow> SmartRateLimiter" where
  "record_all rl rs = foldl record_one rl rs"

text \<open>The invariant of one domain: the multiplier is in range and the streak below five.\<close>

definition limiter_ok :: "SmartRateLimiter \<Rightarrow> string \<Rightarrow> bool" where
  "limiter_ok rl h \<longleftrightarrow> 8 / 10 \<le> multiplier_of rl h \<and> multiplier_of rl h \<le> 3 \<and> streak_of rl h < 5"

section \<open>Priority level of a topic rollup (analysis/insights\_generator.py)\<close>




section \<open>Topic confidence (analysis/topic\_extractor.py)\<close>


section \<open>Company disambiguator (utils/company\_extractor.py)\<close>

text \<open>
  Texts are ASCII strings. \<open>str.lower\<close> maps the letters A to Z to a to z, and the
  regular expression class \<open>\w\<close> holds the letters, the digits and the underscore.
\<close>

definition lower_char :: "char \<Rightarrow> char" where
  "lower_char c =
     (case map_of (zip ''ABCDEFGHIJKLMNOPQRSTUVWXYZ'' ''abcdefghijklmnopqrstuvwxyz'') c of
        None \<Rightarrow> c | Some l \<Rightarrow> l)"

definition lower :: "string \<Rightarrow> string" where
  "lower s = map lower_char s"

definition is_word_char :: "char \<Rightarrow> bool" where
  "is_word_char c \<longleftrightarrow>
     c \<in> set ''abcdefghijklmnopqrstuvwxyzABCDEFGHIJKLMNOPQRSTUVWXYZ0123456789_''"

text \<open>
  \<open>\b\<close> holds at position \<open>p\<close> when exactly one of the characters before and at
  \<open>p\<close> is a word character; outside the text there is no word character.
\<close>

definition word_boundary :: "string \<Rightarrow> nat \<Rightarrow> bool" where
  "word_boundary text p \<longleftrightarrow>
     (0 < p \<and> p \<le> length text \<and> is_word_char (text ! (p - 1)))
       \<noteq> (p < length text \<and> is_word_char (text ! p))"

text \<open>
  \<open>re.search(r'\b' + re.escape(pattern) + r'\b', text)\<close>: the escaped pattern stands
  for itself, so there is a match when the pattern occurs at some position with a word
  boundary on both sides.
\<close>

definition occurs_at :: "string \<Rightarrow> string \<Rightarrow> nat \<Rightarrow> bool" where
  "occurs_at pattern text p \<longleftrightarrow>
     p + length pattern \<le> length text \<and> take (length pattern) (drop p text) = pattern"

definition word_match_at :: "string \<Rightarrow> string \<Rightarrow> nat \<Rightarrow> bool" where
  "word_match_at pattern text p \<longleftrightarrow>
     occurs_at pattern text p \<and> word_boundary text p \<and> word_boundary text (p + length pattern)"

definition re_search_word :: "string \<Rightarrow> string \<Rightarrow> bool" where
  "re_search_word pattern text = list_ex (word_match_at pattern text) [0..<Suc (length text)]"

text \<open>Python's \<open>s in text\<close> on strings: \<open>s\<close> occurs somewhere in \<open>text\<close>.\<close>

definition str_contains :: "string \<Rightarrow> string \<Rightarrow> bool" where
  "str_contains text s = list_ex (occurs_at s text) [0..<Suc (length text)]"

fun matches_company_patterns :: "string \<Rightarrow> string list \<Rightarrow> bool" where
  "matches_company_patterns text [] = False"
| "matches_company_patterns text (pattern # patterns) =
     (if re_search_word pattern text then True else matches_company_patterns text patterns)"

text \<open>
  The pattern table is a dictionary in insertion order: a list of company names with their
  patterns. \<open>company_patterns_init\<close> is the table that the constructor builds.
\<close>

type_synonym pattern_table = "(string \<times> string list) list"

definition company_patterns_init :: pattern_table where
  "company_patterns_init =
     [(''PhonePe'', [''phonepe'', ''phone pe'']),
      (''Myntra'', [''myntra'', ''myntra.com'']),
      (''PayPal'', [''paypal'', ''paypal.com'']),
      (''PayTM'', [''paytm'', ''paytm.com'', ''one97'']),
      (''Google'', [''google'', ''alphabet'', ''goog'', ''google.com'', ''alphabet inc'']),
      (''Amazon'', [''amazon'', ''amzn'', ''aws'', ''amazon.com'', ''amazon inc'']),
      (''Microsoft'', [''microsoft'', ''msft'', ''ms'', ''microsoft.com'', ''microsoft corporation'']),
      (''Apple'', [''apple'', ''aapl'', ''apple inc'', ''apple.com'']),
      (''Meta'', [''meta'', ''facebook'', ''fb'', ''instagram'', ''whatsapp'', ''meta platforms'']),
      (''Netflix'', [''netflix'', ''nflx'', ''netflix.com'', ''netflix inc'']),
      (''Flipkart'', [''flipkart'', ''flipkart.com'', ''flipkart india'']),
      (''Zomato'', [''zomato'', ''zomato.com'']),
      (''Swiggy'', [''swiggy'', ''swiggy.com'']),
      (''Ola'', [''ola'', ''ola cabs'', ''ola.com'']),
      (''Uber'', [''uber'', ''uber.com'']),
      (''Razorpay'', [''razorpay'', ''razorpay.com'']),
      (''Dream11'', [''dream11'', ''dream 11'']),
      (''Carwale'', [''carwale'', ''carwale.com'', ''car wale'']),
      (''BigBasket'', [''bigbasket'', ''big basket'']),
      (''Grofers'', [''grofers'', ''blinkit'']),
      (''Dunzo'', [''dunzo'', ''dunzo.com'']),
      (''Freshworks'', [''freshworks'', ''freshdesk'', ''freshservice'']),
      (''Zoho'', [''zoho'', ''zoho.com'']),
      (''InMobi'', [''inmobi'', ''inmobi.com'']),
      (''ShareChat'', [''sharechat'', ''share chat'']),
      (''Nykaa'', [''nykaa'', ''nykaa.com'']),
      (''PolicyBazaar'', [''policybazaar'', ''policy bazaar'']),
      (''MakeMyTrip'', [''makemytrip'', ''make my trip'', ''mmt'']),
      (''BookMyShow'', [''bookmyshow'', ''book my show'', ''bms'']),
      (''Lenskart'', [''lenskart'', ''lenskart.com'']),
      (''UrbanCompany'', [''urbancompany'', ''urban company'', ''urbanclap'', ''urban clap'']),
      (''Cred'', [''cred'', ''cred.com'']),
      (''Unacademy'', [''unacademy'', ''unacademy.com'']),
      (''Vedantu'', [''vedantu'', ''vedantu.com'']),
      (''Byju'', [''byju'', ''byjus'', ''byju's''])]"

text \<open>
  \<open>_check_target_company_first\<close>: a direct substring test of the lowercased target
  name, then the word-boundary test of the target's patterns, which default to the
  lowercased name when the table has no entry for the target.
\<close>

definition check_target_company_first ::
  "pattern_table \<Rightarrow> string \<Rightarrow> string \<Rightarrow> string \<Rightarrow> string" where
  "check_target_company_first company_patterns title content target_company =
     (let text = lower (title @ '' '' @ content);
          target_lower = lower target_company
      in if str_contains text target_lower then target_company
         else (let patterns = (case map_of company_patterns target_company of
                                 None \<Rightarrow> [target_lower] | Some ps \<Rightarrow> ps)
               in if matches_company_patterns text patterns then target_company
                  else ''Unknown''))"

text \<open>
  \<open>_extract_from_url_patterns\<close> walks over four platform names, skips each of them and
  returns "Unknown" in every case.
\<close>

definition extract_from_url_patterns :: "string \<Rightarrow> string \<Rightarrow> string" where
  "extract_from_url_patterns title content = ''Unknown''"

text \<open>The loop over the table: the first entry whose patterns match wins.\<close>

fun first_matching_company :: "string \<Rightarrow> pattern_table \<Rightarrow> string option" where
  "first_matching_company text [] = None"
| "first_matching_company text ((company_name, patterns) # rest) =
     (if matches_company_patterns text patterns then Some company_name
      else first_matching_company text rest)"

text \<open>
  \<open>extract_company_from_content\<close>. The optional target is \<open>None\<close> or a string; the test
  \<open>if target_company\<close> fails for \<open>None\<close> and for the empty string.
\<close>

definition scan_company_table :: "pattern_table \<Rightarrow> string \<Rightarrow> string \<Rightarrow> string" where
  "scan_company_table company_patterns title content =
     (let text = lower (title @ '' '' @ content)
      in case first_matching_company text company_patterns of
           Some company_name \<Rightarrow> company_name
         | None \<Rightarrow>
             (let url_company = extract_from_url_patterns title content
              in if url_company \<noteq> ''Unknown'' then url_company else ''Unknown''))"

definition extract_company_from_content ::
  "pattern_table \<Rightarrow> string \<Rightarrow> string \<Rightarrow> string option \<Rightarrow> string" where
  "extract_company_from_content company_patterns title content target_company =
     (case target_company of
        None \<Rightarrow> scan_company_table company_patterns title content
      | Some target \<Rightarrow>
          if target = [] then scan_company_table company_patterns title content
          else (let extracted = check_target_company_first company_patterns title content target
                in if extracted \<noteq> ''Unknown'' then extracted
                   else scan_company_table company_patterns title content))"

section \<open>Python values\<close>







text \<open>
  A dictionary in insertion order is a list of key-value pairs with distinct keys.
  \<open>d[k] += n\<close> on a \<open>defaultdict(int)\<close> adds to the entry of \<open>k\<close> in place, or appends
  the entry \<open>(k, n)\<close>.
\<close>

fun dict_set :: "('k \<times> 'v) list \<Rightarrow> 'k \<Rightarrow> 'v \<Rightarrow> ('k \<times> 'v) list" where
  "dict_set [] k v = [(k, v)]"
| "dict_set ((k', v') # d) k v = (if k' = k then (k, v) # d else (k', v') # dict_set d k v)"

definition dict_add :: "('k \<times> nat) list \<Rightarrow> 'k \<Rightarrow> nat \<Rightarrow> ('k \<times> nat) list" where
  "dict_add d k n = dict_set d k ((case map_of d k of None \<Rightarrow> 0 | Some c \<Rightarrow> c) + n)"











text \<open>
  \<open>len(re.findall(r'\b' + re.escape(keyword) + r'\b', text))\<close>: the matches are found
  from left to right and do not overlap; after an empty match the search moves on by one
  position.
\<close>

function count_word_matches_from :: "string \<Rightarrow> string \<Rightarrow> nat \<Rightarrow> nat" where
  "count_word_matches_from pattern text p =
     (if length text < p then 0
      else if word_match_at pattern text p
           then Suc (count_word_matches_from pattern text (p + max 1 (length pattern)))
           else count_word_matches_from pattern text (Suc p))"
  by pat_completeness auto
termination
  by (relation "measure (\<lambda>(pattern, text, p). Suc (length text) - p)") auto

definition count_word_matches :: "string \<Rightarrow> string \<Rightarrow> nat" where
  "count_word_matches pattern text = count_word_matches_from pattern text 0"

section \<open>Time decay (utils/time\_utils.py)\<close>




section \<open>Topic extractor (analysis/topic\_extractor.py)\<close>


record keyword_info =
  kw_category :: string
  kw_topic :: string
  kw_canonical :: string

record AdvancedTopicExtractor =
  keyword_lookup :: "(string \<times> keyword_info) list"
  context_patterns :: "(string \<times> string list) list"

definition topic_key :: "keyword_info \<Rightarrow> string" where
  "topic_key info = kw_category info @ ''.'' @ kw_topic info"


definition extract_by_keywords :: "AdvancedTopicExtractor \<Rightarrow> string \<Rightarrow> (string \<times> nat) list" where
  "extract_by_keywords self text =
     foldl (\<lambda>topics (keyword, info).
              let matches = count_word_matches keyword text
              in if 0 < matches then dict_add topics (topic_key info) matches else topics)
       [] (keyword_lookup self)"











text \<open>
  An experience is a dictionary; the keys that the code reads with \<open>get\<close> may be missing.
  The analysis of an experience is modelled in its topics; the difficulty assessment,
  the interview rounds, the key insights and the metadata of the analysis are not.
\<close>

record experience =
  exp_title :: "string option"
  exp_content :: "string option"
  exp_experience_date :: "int option"
  exp_time_weight :: "real option"
  exp_outcome :: "string option"




section \<open>Scraping loop of the base scraper (scrapers/base\_scraper.py)\<close>

text \<open>
  The record that an adapter extracts is a dictionary; a field is \<open>None\<close> when the key
  is missing. The empty dictionary is the record without any key.
\<close>

record experience_record =
  er_title :: "string option"
  er_content :: "string option"
  er_source_url :: "string option"
  er_source_platform :: "string option"
  er_company :: "string option"
  er_role :: "string option"
  er_experience_date :: "int option"
  er_time_weight :: "real option"
  er_outcome :: "string option"
  er_scraped_at :: "int option"

definition empty_record :: experience_record where
  "empty_record =
     \<lparr>er_title = None, er_content = None, er_source_url = None, er_source_platform = None,
      er_company = None, er_role = None, er_experience_date = None, er_time_weight = None,
      er_outcome = None, er_scraped_at = None\<rparr>"




section \<open>Storing an experience (scrapers/pipeline\_manager.py)\<close>

text \<open>
  The store holds the rows of the companies and of the interview experiences and the
  next value of each id sequence. The commit of a new row is taken to succeed.
\<close>

record company_row =
  c_id :: nat
  c_name :: string
  c_display_name :: string

record experience_row =
  e_id :: nat
  e_company_id :: nat
  e_title :: string
  e_content :: string
  e_source_url :: string
  e_source_platform :: string
  e_role :: string
  e_experience_date :: int
  e_time_weight :: real
  e_success :: bool
  e_scraped_at :: int
  e_processed_at :: "int option"

record store =
  companies :: "company_row list"
  interview_experiences :: "experience_row list"
  next_company_id :: nat
  next_experience_id :: nat

definition empty_store :: store where
  "empty_store = \<lparr>companies = [], interview_experiences = [], next_company_id = 1, next_experience_id = 1\<rparr>"

text \<open>
  \<open>_store_experience\<close>. A missing key raises \<open>KeyError\<close> inside the \<open>try\<close>; the session
  rolls back, the store stays as it was, and the result is \<open>None\<close>. \<open>now\<close> is the clock
  reading for \<open>scraped_at\<close>.
\<close>

definition store_experience :: "int \<Rightarrow> store \<Rightarrow> experience_record \<Rightarrow> store \<times> nat option" where
  "store_experience now db experience_data =
     (case er_source_url experience_data of
        None \<Rightarrow> (db, None)
      | Some source_url \<Rightarrow>
          (case find (\<lambda>row. e_source_url row = source_url) (interview_experiences db) of
             Some existing \<Rightarrow> (db, Some (e_id existing))
           | None \<Rightarrow>
               (case er_company experience_data of
                  None \<Rightarrow> (db, None)
                | Some company_name \<Rightarrow>
                    (let (db1, company) =
                           (case find (\<lambda>c. c_name c = company_name) (companies db) of
                              Some company \<Rightarrow> (db, company)
                            | None \<Rightarrow>
                                (let company = \<lparr>c_id = next_company_id db, c_name = company_name,
                                                 c_display_name = company_name\<rparr>
                                 in (db\<lparr>companies := companies db @ [company],
                                        next_company_id := next_company_id db + 1\<rparr>, company)))
                     in case (er_title experience_data, er_content experience_data,
                              er_source_platform experience_data,
                              er_experience_date experience_data) of
                          (Some title, Some content, Some source_platform, Some experience_date) \<Rightarrow>
                            (let experience =
                                   \<lparr>e_id = next_experience_id db1,
                                    e_company_id = c_id company,
                                    e_title = title,
                                    e_content = content,
                                    e_source_url = source_url,
                                    e_source_platform = source_platform,
                                    e_role = (case er_role experience_data of
                                                None \<Rightarrow> ''Software Engineer'' | Some r \<Rightarrow> r),
                                    e_experience_date = experience_date,
                                    e_time_weight = (case er_time_weight experience_data of
                                                       None \<Rightarrow> 1 | Some w \<Rightarrow> w),
                                    e_success = (er_outcome experience_data = Some ''offer''),
                                    e_scraped_at = now,
                                    e_processed_at = None\<rparr>
                             in (db1\<lparr>interview_experiences := interview_experiences db1 @ [experience],
                                     next_experience_id := next_experience_id db1 + 1\<rparr>,
                                 Some (e_id experience)))
                        | _ \<Rightarrow> (db, None)))))"

text \<open>Storing a list of records one after the other, each with its own clock reading.\<close>

fun store_all :: "store \<Rightarrow> (int \<times> experience_record) list \<Rightarrow> store" where
  "store_all db [] = db"
| "store_all db ((now, experience_data) # rest) =
     store_all (fst (store_experience now db experience_data)) rest"

section \<open>Waiting in the rate limiter (utils/rate\_limiter.py)\<close>

text \<open>
  The world outside the program: the clock \<open>time.time()\<close>, the log of the calls of
  \<open>time.sleep\<close>, the log of the URLs requested with \<open>session.get\<close>, and the number
  of jitter values drawn. Sleeping for \<open>t\<close> seconds moves the clock on by \<open>t\<close>.
\<close>

record world =
  w_clock :: real
  w_sleeps :: "real list"
  w_requests :: "string list"
  w_jitter_draws :: nat

definition sleep :: "real \<Rightarrow> world \<Rightarrow> world" where
  "sleep t w = w\<lparr>w_clock := w_clock w + t, w_sleeps := w_sleeps w @ [t]\<rparr>"

text \<open>
  The configuration of the limiter: 20 requests per minute, backoff base 1.5, at most 60
  seconds of backoff.
\<close>

definition base_requests_per_minute :: nat where
  "base_requests_per_minute = 20"

definition failure_backoff_base :: real where
  "failure_backoff_base = 15 / 10"

definition max_backoff_time :: real where
  "max_backoff_time = 60"

text \<open>
  \<open>_calculate_wait_time\<close>. Reading a \<open>defaultdict\<close> at a missing key stores the default
  there; old entries of the window are dropped from its front.
\<close>

definition calculate_wait_time ::
  "SmartRateLimiter \<Rightarrow> string \<Rightarrow> nat \<Rightarrow> real \<Rightarrow> real \<times> SmartRateLimiter" where
  "calculate_wait_time rl domain base_delay current_time =
     (let wait_time = real base_delay;
          requests = dropWhile (\<lambda>t. 60 < current_time - t)
                       (dd_get [] (rl_domain_requests rl) domain);
          rl1 = rl\<lparr>rl_domain_requests := (rl_domain_requests rl)(domain \<mapsto> requests)\<rparr>;
          requests_per_minute = length requests;
          wait_time = (if base_requests_per_minute \<le> requests_per_minute
                       then (let oldest_request = (case requests of [] \<Rightarrow> current_time | t # _ \<Rightarrow> t);
                                 time_until_next = 60 - (current_time - oldest_request)
                             in max wait_time time_until_next)
                       else wait_time);
          failure_count = failures_of rl1 domain;
          rl2 = rl1\<lparr>rl_domain_failures := (rl_domain_failures rl1)(domain \<mapsto> failure_count)\<rparr>;
          wait_time = (if 0 < failure_count
                       then (let backoff_time = min (failure_backoff_base ^ failure_count)
                                                  max_backoff_time
                             in max wait_time backoff_time)
                       else wait_time);
          adaptive_mult = multiplier_of rl2 domain;
          rl3 = rl2\<lparr>adaptive_multiplier := (adaptive_multiplier rl2)(domain \<mapsto> adaptive_mult)\<rparr>;
          wait_time = wait_time * adaptive_mult;
          last_request_time = (case rl_domain_last_request rl3 domain of None \<Rightarrow> 0 | Some t \<Rightarrow> t);
          time_since_last = current_time - last_request_time;
          wait_time = (if time_since_last < wait_time then wait_time - time_since_last else 0)
      in (max wait_time 0, rl3))"

definition record_request :: "SmartRateLimiter \<Rightarrow> string \<Rightarrow> real \<Rightarrow> SmartRateLimiter" where
  "record_request rl domain timestamp =
     rl\<lparr>rl_domain_requests :=
          (rl_domain_requests rl)(domain \<mapsto> dd_get [] (rl_domain_requests rl) domain @ [timestamp]),
        rl_domain_last_request := (rl_domain_last_request rl)(domain \<mapsto> timestamp)\<rparr>"

text \<open>
  \<open>wait_if_needed\<close>; \<open>jitter i\<close> is the \<open>i\<close>-th value that \<open>random.uniform(0.8, 1.2)\<close>
  returns.
\<close>

definition wait_if_needed ::
  "(nat \<Rightarrow> real) \<Rightarrow> SmartRateLimiter \<Rightarrow> world \<Rightarrow> string \<Rightarrow> nat \<Rightarrow> SmartRateLimiter \<times> world" where
  "wait_if_needed jitter rl w domain base_delay =
     (let now = w_clock w;
          (wait_time, rl1) = calculate_wait_time rl domain base_delay now;
          w1 = (if 0 < wait_time
                then (let j = jitter (w_jitter_draws w);
                          total_wait = min (wait_time * j) 10
                      in sleep total_wait (w\<lparr>w_jitter_draws := w_jitter_draws w + 1\<rparr>))
                else w)
      in (record_request rl1 domain now, w1))"

section \<open>Safe request of the base scraper (scrapers/base\_scraper.py)\<close>

record config =
  REQUEST_DELAY :: nat
  MAX_RETRIES :: nat
  MAX_CONSECUTIVE_FAILURES :: nat
  RESPECT_ROBOTS_TXT :: bool

definition Config_default :: config where
  "Config_default =
     \<lparr>REQUEST_DELAY = 1, MAX_RETRIES = 2, MAX_CONSECUTIVE_FAILURES = 3,
      RESPECT_ROBOTS_TXT = False\<rparr>"

text \<open>
  What \<open>session.get\<close> does: it returns a response with a status code and a body, or it
  raises \<open>requests.RequestException\<close>.
\<close>

datatype http_result = Response nat string | RequestException

text \<open>
  The environment of a scraper: the result of the \<open>i\<close>-th call of \<open>session.get\<close> and the
  seconds it takes, the jitter values, the host of a URL (\<open>urlparse(url).netloc\<close>) and the
  answer of the robots checker for a URL.
\<close>

record environment =
  http_results :: "nat \<Rightarrow> http_result"
  request_seconds :: "nat \<Rightarrow> real"
  jitter_values :: "nat \<Rightarrow> real"
  netloc :: "string \<Rightarrow> string"
  can_fetch :: "string \<Rightarrow> bool \<times> nat"

record scraper =
  seen_urls :: "string set"
  domain_failures :: "string \<rightharpoonup> nat"
  rate_limiter :: SmartRateLimiter
  stat_requests_made :: nat
  stat_successful_scrapes :: nat
  stat_duplicates_found :: nat
  stat_robots_blocked :: nat
  stat_rate_limited :: nat
  stat_forbidden_errors :: nat

definition BaseScraper_init :: scraper where
  "BaseScraper_init =
     \<lparr>seen_urls = {}, domain_failures = Map.empty, rate_limiter = SmartRateLimiter_init,
      stat_requests_made = 0, stat_successful_scrapes = 0, stat_duplicates_found = 0,
      stat_robots_blocked = 0, stat_rate_limited = 0, stat_forbidden_errors = 0\<rparr>"

definition session_get :: "environment \<Rightarrow> world \<Rightarrow> string \<Rightarrow> http_result \<times> world" where
  "session_get env w url =
     (let i = length (w_requests w)
      in (http_results env i,
          w\<lparr>w_requests := w_requests w @ [url], w_clock := w_clock w + request_seconds env i\<rparr>))"

text \<open>
  The retry loop \<open>for attempt in range(Config.MAX_RETRIES)\<close>, from \<open>attempt\<close> on; the
  argument \<open>remaining\<close> counts the passes that are left.
\<close>

fun request_attempts ::
  "config \<Rightarrow> environment \<Rightarrow> string \<Rightarrow> string \<Rightarrow> nat \<Rightarrow> nat \<Rightarrow> scraper \<Rightarrow> world
     \<Rightarrow> (nat \<times> string) option \<times> scraper \<times> world" where
  "request_attempts cfg env url domain attempt 0 self w = (None, self, w)"
| "request_attempts cfg env url domain attempt (Suc remaining) self w =
     (let self1 = self\<lparr>stat_requests_made := stat_requests_made self + 1\<rparr>;
          (result, w1) = session_get env w url
      in case result of
           RequestException \<Rightarrow>
             (let self2 = (if attempt = MAX_RETRIES cfg - 1
                           then self1\<lparr>rate_limiter := record_failure (rate_limiter self1) domain\<rparr>
                           else self1)
              in request_attempts cfg env url domain (attempt + 1) remaining self2 w1)
         | Response status_code body \<Rightarrow>
             if status_code = 200
             then (Some (status_code, body),
                   self1\<lparr>seen_urls := insert url (seen_urls self1),
                         rate_limiter := record_success (rate_limiter self1) domain,
                         stat_successful_scrapes := stat_successful_scrapes self1 + 1,
                         domain_failures := (domain_failures self1)(domain \<mapsto> 0)\<rparr>,
                   w1)
             else if status_code = 403
             then (let failures = dd_get 0 (domain_failures self1) domain + 1;
                       self2 = self1\<lparr>stat_forbidden_errors := stat_forbidden_errors self1 + 1,
                                     domain_failures := (domain_failures self1)(domain \<mapsto> failures)\<rparr>
                   in if 3 \<le> failures then (None, self2, w1)
                      else (let wait_time = 5 * (real attempt + 1)
                            in request_attempts cfg env url domain (attempt + 1) remaining self2
                                 (sleep wait_time w1)))
             else if status_code = 429
             then (let self2 = self1\<lparr>stat_rate_limited := stat_rate_limited self1 + 1,
                                     rate_limiter := record_failure (rate_limiter self1) domain\<rparr>;
                       wait_time = 2 ^ attempt
                   in request_attempts cfg env url domain (attempt + 1) remaining self2
                        (sleep wait_time w1))
             else request_attempts cfg env url domain (attempt + 1) remaining self1 w1)"

text \<open>\<open>safe_request\<close>: the result is the response, or \<open>None\<close> when the request is skipped or fails.\<close>

definition safe_request ::
  "config \<Rightarrow> environment \<Rightarrow> scraper \<Rightarrow> world \<Rightarrow> string
     \<Rightarrow> (nat \<times> string) option \<times> scraper \<times> world" where
  "safe_request cfg env self w url =
     (if url \<in> seen_urls self
      then (None, self\<lparr>stat_duplicates_found := stat_duplicates_found self + 1\<rparr>, w)
      else if RESPECT_ROBOTS_TXT cfg \<and> \<not> fst (can_fetch env url)
      then (None, self\<lparr>stat_robots_blocked := stat_robots_blocked self + 1\<rparr>, w)
      else (let crawl_delay = (if RESPECT_ROBOTS_TXT cfg then snd (can_fetch env url)
                               else REQUEST_DELAY cfg);
                domain = netloc env url;
                (rl1, w1) = wait_if_needed (jitter_values env) (rate_limiter self) w domain
                              crawl_delay;
                self1 = self\<lparr>rate_limiter := rl1\<rparr>
            in if MAX_CONSECUTIVE_FAILURES cfg \<le> dd_get 0 (domain_failures self1) domain
               then (None, self1, w1)
               else request_attempts cfg env url domain 0 (MAX_RETRIES cfg) self1 w1))"

text \<open>
  A scenario: a host that answers every request with 403 after a tenth of a second, a
  jitter of 1, the default configuration, and three calls of \<open>safe_request\<close> for
  three URLs of the host, one after the other, from a fresh scraper.
\<close>

definition forbidden_env :: environment where
  "forbidden_env =
     \<lparr>http_results = (\<lambda>i. Response 403 ''Forbidden''), request_seconds = (\<lambda>i. 1 / 10),
      jitter_values = (\<lambda>i. 1), netloc = (\<lambda>url. ''www.glassdoor.com''),
      can_fetch = (\<lambda>url. (True, 5))\<rparr>"

definition start_world :: world where
  "start_world = \<lparr>w_clock = 1000, w_sleeps = [], w_requests = [], w_jitter_draws = 0\<rparr>"

definition first_call :: "(nat \<times> string) option \<times> scraper \<times> world" where
  "first_call =
     safe_request Config_default forbidden_env BaseScraper_init start_world
       ''https://www.glassdoor.com/a''"

definition second_call :: "(nat \<times> string) option \<times> scraper \<times> world" where
  "second_call =
     safe_request Config_default forbidden_env (fst (snd first_call)) (snd (snd first_call))
       ''https://www.glassdoor.com/b''"

definition third_call :: "(nat \<times> string) option \<times> scraper \<times> world" where
  "third_call =
     safe_request Config_default forbidden_env (fst (snd second_call)) (snd (snd second_call))
       ''https://www.glassdoor.com/c''"

section \<open>Insight aggregator (analysis/insights\_generator.py)\<close>



























section \<open>Properties of rounding\<close>








section \<open>Properties of the rate limiter\<close>

lemma record_success_failures: "failures_of (record_success rl h) h = 0"
  by (simp add: record_success_def failures_of_def dd_get_def Let_def streak_of_def)

lemma record_success_streak:
  "streak_of (record_success rl h) h = (if 5 \<le> streak_of rl h + 1 then 0 else streak_of rl h + 1)"
  by (simp add: record_success_def dd_get_def Let_def streak_of_def)

lemma record_success_multiplier:
  "multiplier_of (record_success rl h) h =
     (if 5 \<le> streak_of rl h + 1 then max (8 / 10) (multiplier_of rl h * (9 / 10)) else multiplier_of rl h)"
  by (simp add: record_success_def dd_get_def Let_def streak_of_def multiplier_of_def)

lemma record_success_other:
  "g \<noteq> h \<Longrightarrow> multiplier_of (record_success rl h) g = multiplier_of rl g
     \<and> streak_of (record_success rl h) g = streak_of rl g
     \<and> failures_of (record_success rl h) g = failures_of rl g"
  by (simp add: record_success_def dd_get_def Let_def streak_of_def multiplier_of_def failures_of_def)

lemma record_failure_own:
  "failures_of (record_failure rl h) h = failures_of rl h + 1
   \<and> streak_of (record_failure rl h) h = 0
   \<and> multiplier_of (record_failure rl h) h = min 3 (multiplier_of rl h * (12 / 10))"
  by (simp add: record_failure_def dd_get_def Let_def streak_of_def multiplier_of_def failures_of_def)

lemma record_failure_other:
  "g \<noteq> h \<Longrightarrow> multiplier_of (record_failure rl h) g = multiplier_of rl g
     \<and> streak_of (record_failure rl h) g = streak_of rl g
     \<and> failures_of (record_failure rl h) g = failures_of rl g"
  by (simp add: record_failure_def dd_get_def Let_def streak_of_def multiplier_of_def failures_of_def)

lemma limiter_ok_init: "limiter_ok SmartRateLimiter_init h"
  by (simp add: limiter_ok_def SmartRateLimiter_init_def multiplier_of_def streak_of_def dd_get_def)

lemma limiter_ok_record_one: "limiter_ok rl h \<Longrightarrow> limiter_ok (record_one rl r) h"
proof (cases r)
  case (Success d)
  assume ok: "limiter_ok rl h"
  show ?thesis
  proof (cases "d = h")
    case True
    with ok Success show ?thesis
      by (auto simp: limiter_ok_def record_success_streak record_success_multiplier)
  next
    case False
    with ok Success show ?thesis
      using record_success_other [of h d rl] by (simp add: limiter_ok_def)
  qed
next
  case (Failure d)
  assume ok: "limiter_ok rl h"
  show ?thesis
  proof (cases "d = h")
    case True
    with ok Failure show ?thesis
      by (auto simp: limiter_ok_def record_failure_own)
  next
    case False
    with ok Failure show ?thesis
      using record_failure_other [of h d rl] by (simp add: limiter_ok_def)
  qed
qed

lemma limiter_ok_record_all: "limiter_ok rl h \<Longrightarrow> limiter_ok (record_all rl rs) h"
  unfolding record_all_def
  by (induction rs arbitrary: rl) (simp_all add: limiter_ok_record_one)

lemma successes_below_five:
  "streak_of rl h = 0 \<Longrightarrow> k < 5 \<Longrightarrow>
     streak_of (record_all rl (replicate k (Success h))) h = k
     \<and> multiplier_of (record_all rl (replicate k (Success h))) h = multiplier_of rl h"
proof (induction k)
  case 0
  then show ?case by (simp add: record_all_def)
next
  case (Suc k)
  then have ih: "streak_of (record_all rl (replicate k (Success h))) h = k"
    "multiplier_of (record_all rl (replicate k (Success h))) h = multiplier_of rl h" by simp_all
  have step: "record_all rl (replicate (Suc k) (Success h))
       = record_success (record_all rl (replicate k (Success h))) h"
  proof -
    have "replicate (Suc k) (Success h) = replicate k (Success h) @ [Success h]"
      by (simp add: replicate_append_same)
    then show ?thesis unfolding record_all_def by (simp del: replicate_Suc)
  qed
  show ?case using Suc.prems ih unfolding step
    by (simp add: record_success_streak record_success_multiplier)
qed

lemma fifth_success:
  assumes "streak_of rl h = 0"
  shows "streak_of (record_all rl (replicate 5 (Success h))) h = 0
     \<and> multiplier_of (record_all rl (replicate 5 (Success h))) h = max (8 / 10) (multiplier_of rl h * (9 / 10))"
proof -
  have four: "streak_of (record_all rl (replicate 4 (Success h))) h = 4"
    "multiplier_of (record_all rl (replicate 4 (Success h))) h = multiplier_of rl h"
    using successes_below_five [OF assms, of 4] by simp_all
  have "replicate 5 (Success h) = replicate 4 (Success h) @ [Success h]"
    by (simp add: numeral_eq_Suc)
  then have step: "record_all rl (replicate 5 (Success h))
       = record_success (record_all rl (replicate 4 (Success h))) h"
    unfolding record_all_def by simp
  show ?thesis unfolding step using four
    by (simp add: record_success_streak record_success_multiplier)
qed

text \<open>
  Claim C8. For every domain the adaptive multiplier starts at 1.0 and stays within
  [0.8, 3.0] under every sequence of success and failure recordings. Recording a success
  zeroes the failure counter and increments the success streak; the success that brings
  the streak to five multiplies the multiplier by 0.9, floored at 0.8, and resets the
  streak, so that this happens on every fifth consecutive success and on no earlier one.
  Recording a failure increments the failure counter, multiplies the multiplier by 1.2,
  capped at 3.0, and resets the success streak. Recordings for one domain leave the other
  domains alone.
\<close>

theorem adaptive_multiplier_range:
  "multiplier_of SmartRateLimiter_init h = 1
   \<and> 8 / 10 \<le> multiplier_of (record_all SmartRateLimiter_init rs) h
   \<and> multiplier_of (record_all SmartRateLimiter_init rs) h \<le> 3
   \<and> (limiter_ok rl h \<longrightarrow> limiter_ok (record_all rl rs) h)
   \<and> failures_of (record_success rl h) h = 0
   \<and> (streak_of rl h + 1 < 5 \<longrightarrow>
         streak_of (record_success rl h) h = streak_of rl h + 1
         \<and> multiplier_of (record_success rl h) h = multiplier_of rl h)
   \<and> (5 \<le> streak_of rl h + 1 \<longrightarrow>
         streak_of (record_success rl h) h = 0
         \<and> multiplier_of (record_success rl h) h = max (8 / 10) (multiplier_of rl h * (9 / 10)))
   \<and> (streak_of rl h = 0 \<longrightarrow>
         (\<forall>k<5. multiplier_of (record_all rl (replicate k (Success h))) h = multiplier_of rl h
                \<and> streak_of (record_all rl (replicate k (Success h))) h = k)
         \<and> multiplier_of (record_all rl (replicate 5 (Success h))) h
               = max (8 / 10) (multiplier_of rl h * (9 / 10))
         \<and> streak_of (record_all rl (replicate 5 (Success h))) h = 0)
   \<and> failures_of (record_failure rl h) h = failures_of rl h + 1
   \<and> multiplier_of (record_failure rl h) h = min 3 (multiplier_of rl h * (12 / 10))
   \<and> streak_of (record_failure rl h) h = 0
   \<and> (g \<noteq> h \<longrightarrow>
         multiplier_of (record_success rl h) g = multiplier_of rl g
         \<and> multiplier_of (record_failure rl h) g = multiplier_of rl g)"
proof -
  have start: "multiplier_of SmartRateLimiter_init h = 1"
    by (simp add: SmartRateLimiter_init_def multiplier_of_def dd_get_def)
  have "limiter_ok (record_all SmartRateLimiter_init rs) h"
    by (rule limiter_ok_record_all [OF limiter_ok_init])
  then have range: "8 / 10 \<le> multiplier_of (record_all SmartRateLimiter_init rs) h"
    "multiplier_of (record_all SmartRateLimiter_init rs) h \<le> 3"
    by (simp_all add: limiter_ok_def)
  have below: "streak_of rl h + 1 < 5 \<longrightarrow>
         streak_of (record_success rl h) h = streak_of rl h + 1
         \<and> multiplier_of (record_success rl h) h = multiplier_of rl h"
    by (simp add: record_success_streak record_success_multiplier)
  have fifth: "5 \<le> streak_of rl h + 1 \<longrightarrow>
         streak_of (record_success rl h) h = 0
         \<and> multiplier_of (record_success rl h) h = max (8 / 10) (multiplier_of rl h * (9 / 10))"
    by (simp add: record_success_streak record_success_multiplier)
  have runs: "streak_of rl h = 0 \<longrightarrow>
         (\<forall>k<5. multiplier_of (record_all rl (replicate k (Success h))) h = multiplier_of rl h
                \<and> streak_of (record_all rl (replicate k (Success h))) h = k)
         \<and> multiplier_of (record_all rl (replicate 5 (Success h))) h
               = max (8 / 10) (multiplier_of rl h * (9 / 10))
         \<and> streak_of (record_all rl (replicate 5 (Success h))) h = 0"
    using successes_below_five [of rl h] fifth_success [of rl h] by blast
  have others: "g \<noteq> h \<longrightarrow>
         multiplier_of (record_success rl h) g = multiplier_of rl g
         \<and> multiplier_of (record_failure rl h) g = multiplier_of rl g"
    using record_success_other [of g h rl] record_failure_other [of g h rl] by blast
  show ?thesis
    using start range limiter_ok_record_all [of rl h rs] record_success_failures [of rl h]
      below fifth runs record_failure_own [of rl h] others
    by blast
qed

theorem adaptive_multiplier_range_witness:
  "limiter_ok SmartRateLimiter_init ''leetcode.com''
   \<and> streak_of SmartRateLimiter_init ''leetcode.com'' = 0
   \<and> streak_of SmartRateLimiter_init ''leetcode.com'' + 1 < 5
   \<and> 5 \<le> streak_of (record_all SmartRateLimiter_init (replicate 4 (Success ''leetcode.com''))) ''leetcode.com'' + 1
   \<and> ''reddit.com'' \<noteq> ''leetcode.com''
   \<and> multiplier_of (record_all SmartRateLimiter_init (replicate 5 (Success ''leetcode.com''))) ''leetcode.com'' = 9 / 10
   \<and> multiplier_of (record_failure SmartRateLimiter_init ''leetcode.com'') ''leetcode.com'' = 12 / 10
   \<and> multiplier_of (record_failure SmartRateLimiter_init ''leetcode.com'') ''reddit.com'' = 1
   \<and> 8 / 10 \<le> multiplier_of (record_all SmartRateLimiter_init
         [Failure ''leetcode.com'', Failure ''leetcode.com'', Success ''leetcode.com'']) ''leetcode.com''"
proof -
  have s0: "streak_of SmartRateLimiter_init ''leetcode.com'' = 0"
    by (simp add: SmartRateLimiter_init_def streak_of_def dd_get_def)
  have m0: "multiplier_of SmartRateLimiter_init ''leetcode.com'' = 1"
    "multiplier_of SmartRateLimiter_init ''reddit.com'' = 1"
    by (simp_all add: SmartRateLimiter_init_def multiplier_of_def dd_get_def)
  have ne: "''reddit.com'' \<noteq> ''leetcode.com''" by simp
  note c8 = adaptive_multiplier_range
    [of "''leetcode.com''" _ SmartRateLimiter_init "''reddit.com''"]
  have four: "streak_of (record_all SmartRateLimiter_init (replicate 4 (Success ''leetcode.com''))) ''leetcode.com'' = 4"
    using c8 s0 by simp
  show ?thesis
    using c8 [of "[Failure ''leetcode.com'', Failure ''leetcode.com'', Success ''leetcode.com'']"]
      s0 m0 ne four limiter_ok_init [of "''leetcode.com''"]
    by simp
qed

section \<open>Properties of the company disambiguator\<close>

lemma first_matching_company_key:
  "first_matching_company text tbl = Some c \<Longrightarrow> c \<in> fst ` set tbl"
  by (induction tbl) (auto split: if_splits)

lemma first_matching_company_matches:
  "first_matching_company text tbl = Some c \<Longrightarrow>
     \<exists>ps. (c, ps) \<in> set tbl \<and> matches_company_patterns text ps"
  by (induction tbl) (auto split: if_splits)

lemma first_matching_company_priority:
  "i < length tbl \<Longrightarrow> matches_company_patterns text (snd (tbl ! i)) \<Longrightarrow>
   \<forall>j<i. \<not> matches_company_patterns text (snd (tbl ! j)) \<Longrightarrow>
   first_matching_company text tbl = Some (fst (tbl ! i))"
proof (induction tbl arbitrary: i)
  case Nil
  then show ?case by simp
next
  case (Cons e tbl)
  obtain name ps where e: "e = (name, ps)" by (cases e)
  show ?case
  proof (cases i)
    case 0
    with Cons.prems e show ?thesis by simp
  next
    case (Suc k)
    have "\<not> matches_company_patterns text ps"
      using Cons.prems(3) Suc e by (metis nth_Cons_0 snd_conv zero_less_Suc)
    moreover have "first_matching_company text tbl = Some (fst (tbl ! k))"
    proof (rule Cons.IH)
      show "k < length tbl" using Cons.prems(1) Suc by simp
      show "matches_company_patterns text (snd (tbl ! k))" using Cons.prems(2) Suc by simp
      show "\<forall>j<k. \<not> matches_company_patterns text (snd (tbl ! j))"
        using Cons.prems(3) Suc by (metis Suc_less_eq nth_Cons_Suc)
    qed
    ultimately show ?thesis using e Suc by simp
  qed
qed

lemma matches_company_patterns_iff:
  "matches_company_patterns text ps \<longleftrightarrow> (\<exists>pattern \<in> set ps. re_search_word pattern text)"
  by (induction ps) auto

lemma re_search_word_iff:
  "re_search_word pattern text \<longleftrightarrow>
     (\<exists>p. occurs_at pattern text p \<and> word_boundary text p
          \<and> word_boundary text (p + length pattern))"
proof -
  have "\<And>p. word_match_at pattern text p \<Longrightarrow> p \<in> set [0..<Suc (length text)]"
    unfolding word_match_at_def occurs_at_def by (simp del: upt_Suc)
  then show ?thesis
    unfolding re_search_word_def list_ex_iff word_match_at_def [symmetric]
    by (metis word_match_at_def)
qed

lemma str_contains_iff: "str_contains text s \<longleftrightarrow> (\<exists>p. occurs_at s text p)"
proof -
  have "\<And>p. occurs_at s text p \<Longrightarrow> p \<in> set [0..<Suc (length text)]"
    unfolding occurs_at_def by (simp del: upt_Suc)
  then show ?thesis unfolding str_contains_def list_ex_iff by blast
qed

lemma occurs_at_iff: "occurs_at s text p \<longleftrightarrow> (\<exists>xs ys. text = xs @ s @ ys \<and> length xs = p)"
proof
  assume a: "occurs_at s text p"
  then have "text = take p text @ s @ drop (p + length s) text"
    unfolding occurs_at_def
    by (metis append_take_drop_id drop_drop add.commute)
  moreover have "length (take p text) = p" using a unfolding occurs_at_def by simp
  ultimately show "\<exists>xs ys. text = xs @ s @ ys \<and> length xs = p" by blast
next
  assume "\<exists>xs ys. text = xs @ s @ ys \<and> length xs = p"
  then show "occurs_at s text p" unfolding occurs_at_def by auto
qed

lemma lower_append: "lower (a @ b) = lower a @ lower b"
  by (simp add: lower_def)

lemma phonepe_title:
  "re_search_word ''phonepe'' (lower (''PhonePe Interview Experience'' @ '' '' @ content))"
proof -
  have l: "lower (''PhonePe Interview Experience'' @ '' '' @ content)
        = ''phonepe interview experience '' @ lower content"
    unfolding lower_append by (simp add: lower_def lower_char_def)
  have "word_match_at ''phonepe'' (''phonepe interview experience '' @ lower content) 0"
    unfolding word_match_at_def occurs_at_def word_boundary_def
    by (simp add: is_word_char_def nth_append)
  then show ?thesis unfolding l re_search_word_def list_ex_iff by force
qed


text \<open>
  Claim C10. For every title, content and optional target, and for every pattern table,
  \<open>extract_company_from_content\<close> returns the string "Unknown", a key of the pattern
  table, or the supplied target string, and nothing else.
\<close>

theorem extract_company_closed_set:
  "extract_company_from_content company_patterns title content target_company
     \<in> {''Unknown''} \<union> set (map fst company_patterns)
         \<union> (case target_company of None \<Rightarrow> {} | Some target \<Rightarrow> {target})"
proof -
  have scan: "scan_company_table company_patterns title content
       \<in> {''Unknown''} \<union> set (map fst company_patterns)"
    unfolding scan_company_table_def Let_def extract_from_url_patterns_def
    by (auto split: option.splits dest: first_matching_company_key)
  show ?thesis
  proof (cases target_company)
    case None
    then show ?thesis using scan by (simp add: extract_company_from_content_def)
  next
    case (Some target)
    have "check_target_company_first company_patterns title content target
            \<in> {''Unknown'', target}"
      unfolding check_target_company_first_def Let_def by simp
    then show ?thesis using scan Some
      unfolding extract_company_from_content_def Let_def by auto
  qed
qed

text \<open>
  Claim C5. Without a target the pattern table is scanned in order and the first entry
  with a matching pattern wins: when the entry at position \<open>i\<close> matches and no earlier
  entry does, its name is returned, whatever later entries match. In the constructor's
  table PhonePe (position 0) precedes Flipkart (position 10); for the title
  "PhonePe Interview Experience" and every content, in particular one that mentions
  Walmart, Flipkart and a PhonePe SDE round and so also matches Flipkart's patterns,
  the result is "PhonePe" and not "Flipkart".
\<close>

theorem priority_order_phonepe:
  "((target_company = None \<or> target_company = Some [])
      \<and> i < length company_patterns
      \<and> matches_company_patterns (lower (title @ '' '' @ content)) (snd (company_patterns ! i))
      \<and> (\<forall>j<i. \<not> matches_company_patterns (lower (title @ '' '' @ content))
                    (snd (company_patterns ! j)))
      \<longrightarrow> extract_company_from_content company_patterns title content target_company
            = fst (company_patterns ! i))
   \<and> fst (company_patterns_init ! 0) = ''PhonePe''
   \<and> fst (company_patterns_init ! 10) = ''Flipkart''
   \<and> extract_company_from_content company_patterns_init
         ''PhonePe Interview Experience'' any_content None = ''PhonePe''
   \<and> matches_company_patterns
         (lower (''PhonePe Interview Experience'' @ '' ''
                 @ ''Walmart owns Flipkart. I appeared for the PhonePe SDE round.''))
         (snd (company_patterns_init ! 10))
   \<and> extract_company_from_content company_patterns_init ''PhonePe Interview Experience''
         ''Walmart owns Flipkart. I appeared for the PhonePe SDE round.'' None \<noteq> ''Flipkart''"
proof -
  have general: "(target_company = None \<or> target_company = Some [])
      \<and> i < length company_patterns
      \<and> matches_company_patterns (lower (title @ '' '' @ content)) (snd (company_patterns ! i))
      \<and> (\<forall>j<i. \<not> matches_company_patterns (lower (title @ '' '' @ content))
                    (snd (company_patterns ! j)))
      \<longrightarrow> extract_company_from_content company_patterns title content target_company
            = fst (company_patterns ! i)"
  proof
    assume a: "(target_company = None \<or> target_company = Some [])
      \<and> i < length company_patterns
      \<and> matches_company_patterns (lower (title @ '' '' @ content)) (snd (company_patterns ! i))
      \<and> (\<forall>j<i. \<not> matches_company_patterns (lower (title @ '' '' @ content))
                    (snd (company_patterns ! j)))"
    then have "first_matching_company (lower (title @ '' '' @ content)) company_patterns
                 = Some (fst (company_patterns ! i))"
      using first_matching_company_priority by blast
    then have "scan_company_table company_patterns title content = fst (company_patterns ! i)"
      by (simp add: scan_company_table_def)
    then show "extract_company_from_content company_patterns title content target_company
            = fst (company_patterns ! i)"
      using a by (auto simp: extract_company_from_content_def)
  qed
  have positions: "fst (company_patterns_init ! 0) = ''PhonePe''"
    "fst (company_patterns_init ! 10) = ''Flipkart''"
    by (simp_all add: company_patterns_init_def)
  have phonepe: "extract_company_from_content company_patterns_init
         ''PhonePe Interview Experience'' c None = ''PhonePe''" for c
    using phonepe_title [of c]
    by (simp add: extract_company_from_content_def scan_company_table_def
        company_patterns_init_def)
  have ambiguous: "matches_company_patterns
         (lower (''PhonePe Interview Experience'' @ '' ''
                 @ ''Walmart owns Flipkart. I appeared for the PhonePe SDE round.''))
         (snd (company_patterns_init ! 10))"
    by code_simp
  show ?thesis using general positions phonepe ambiguous by simp
qed

theorem priority_order_phonepe_witness:
  "10 < length company_patterns_init
   \<and> matches_company_patterns (lower (''Flipkart Interview'' @ '' '' @ ''Zomato asked too''))
        (snd (company_patterns_init ! 10))
   \<and> matches_company_patterns (lower (''Flipkart Interview'' @ '' '' @ ''Zomato asked too''))
        (snd (company_patterns_init ! 11))
   \<and> list_all (\<lambda>e. \<not> matches_company_patterns
                   (lower (''Flipkart Interview'' @ '' '' @ ''Zomato asked too'')) (snd e))
        (take 10 company_patterns_init)
   \<and> extract_company_from_content company_patterns_init
        ''Flipkart Interview'' ''Zomato asked too'' None = ''Flipkart''"
proof -
  let ?text = "lower (''Flipkart Interview'' @ '' '' @ ''Zomato asked too'')"
  have len: "10 < length company_patterns_init"
    by (simp add: company_patterns_init_def)
  have m10: "matches_company_patterns ?text (snd (company_patterns_init ! 10))"
    by code_simp
  have m11: "matches_company_patterns ?text (snd (company_patterns_init ! 11))"
    by code_simp
  have before: "list_all (\<lambda>e. \<not> matches_company_patterns ?text (snd e)) (take 10 company_patterns_init)"
    by code_simp
  then have earlier: "\<forall>j<10. \<not> matches_company_patterns ?text (snd (company_patterns_init ! j))"
    using len by (simp add: list_all_length)
  have name: "fst (company_patterns_init ! 10) = ''Flipkart''"
    by (simp add: company_patterns_init_def)
  show ?thesis
    using priority_order_phonepe
      [of None 10 company_patterns_init "''Flipkart Interview''" "''Zomato asked too''"]
      len m10 m11 before earlier name
    by simp
qed

text \<open>
  Claim C6, as stated, fails for a supplied target. With the target "Ola", the title
  "Chocolate" and the content "cake", none of Ola's patterns occurs as a whole word in
  the text "chocolate cake", and without a target the result is "Unknown"; with the
  target the result is "Ola", because "ola" is a substring of "chocolate".
\<close>

theorem target_substring_counterexample:
  "map_of company_patterns_init ''Ola'' = Some [''ola'', ''ola cabs'', ''ola.com'']
   \<and> \<not> matches_company_patterns (lower (''Chocolate'' @ '' '' @ ''cake''))
          [''ola'', ''ola cabs'', ''ola.com'']
   \<and> extract_company_from_content company_patterns_init ''Chocolate'' ''cake'' None = ''Unknown''
   \<and> extract_company_from_content company_patterns_init ''Chocolate'' ''cake'' (Some ''Ola'')
       = ''Ola''"
  by code_simp

text \<open>
  Claim C6, amended, for ASCII titles, contents and targets. Matching against the
  pattern table uses word boundaries: a pattern matches exactly when it occurs at a
  position with a word boundary on both of its sides, and the scan of the table returns
  a company only when one of that company's patterns matches in this way. The target
  check is wider: a supplied target that is neither empty nor the string "Unknown" is
  returned when its lowercased name occurs anywhere in the lowercased text, as a plain
  substring, or when one of its patterns matches at word boundaries; when neither holds
  the result is that of the table scan. An empty target and the target "Unknown" are
  never returned as a match: the result is that of the table scan.
\<close>

theorem word_boundary_matching_amended:
  "(re_search_word pattern text \<longleftrightarrow>
      (\<exists>p. occurs_at pattern text p \<and> word_boundary text p
           \<and> word_boundary text (p + length pattern)))
   \<and> (str_contains text s \<longleftrightarrow> (\<exists>xs ys. text = xs @ s @ ys))
   \<and> (first_matching_company text company_patterns = Some company \<longrightarrow>
        (\<exists>patterns. (company, patterns) \<in> set company_patterns
           \<and> (\<exists>pattern \<in> set patterns. re_search_word pattern text)))
   \<and> extract_company_from_content company_patterns title content None
        = (case first_matching_company (lower (title @ '' '' @ content)) company_patterns of
             None \<Rightarrow> ''Unknown'' | Some company \<Rightarrow> company)
   \<and> (target \<noteq> [] \<and> target \<noteq> ''Unknown''
        \<and> (str_contains (lower (title @ '' '' @ content)) (lower target)
            \<or> matches_company_patterns (lower (title @ '' '' @ content))
                 (case map_of company_patterns target of
                    None \<Rightarrow> [lower target] | Some ps \<Rightarrow> ps))
        \<longrightarrow> extract_company_from_content company_patterns title content (Some target) = target)
   \<and> (target \<noteq> []
        \<and> \<not> str_contains (lower (title @ '' '' @ content)) (lower target)
        \<and> \<not> matches_company_patterns (lower (title @ '' '' @ content))
                 (case map_of company_patterns target of
                    None \<Rightarrow> [lower target] | Some ps \<Rightarrow> ps)
        \<longrightarrow> extract_company_from_content company_patterns title content (Some target)
              = extract_company_from_content company_patterns title content None)
   \<and> (target = [] \<or> target = ''Unknown''
        \<longrightarrow> extract_company_from_content company_patterns title content (Some target)
              = extract_company_from_content company_patterns title content None)"
proof -
  have sub: "str_contains text s \<longleftrightarrow> (\<exists>xs ys. text = xs @ s @ ys)"
    unfolding str_contains_iff occurs_at_iff by blast
  have scan: "first_matching_company text company_patterns = Some company \<longrightarrow>
        (\<exists>patterns. (company, patterns) \<in> set company_patterns
           \<and> (\<exists>pattern \<in> set patterns. re_search_word pattern text))"
    using first_matching_company_matches [of "text" company_patterns company]
    by (simp add: matches_company_patterns_iff)
  have none: "extract_company_from_content company_patterns title content None
        = (case first_matching_company (lower (title @ '' '' @ content)) company_patterns of
             None \<Rightarrow> ''Unknown'' | Some company \<Rightarrow> company)"
    by (simp add: extract_company_from_content_def scan_company_table_def
        extract_from_url_patterns_def split: option.splits)
  have hit: "target \<noteq> [] \<and> target \<noteq> ''Unknown''
        \<and> (str_contains (lower (title @ '' '' @ content)) (lower target)
            \<or> matches_company_patterns (lower (title @ '' '' @ content))
                 (case map_of company_patterns target of
                    None \<Rightarrow> [lower target] | Some ps \<Rightarrow> ps))
        \<longrightarrow> extract_company_from_content company_patterns title content (Some target) = target"
    by (auto simp: extract_company_from_content_def check_target_company_first_def Let_def)
  have miss: "target \<noteq> []
        \<and> \<not> str_contains (lower (title @ '' '' @ content)) (lower target)
        \<and> \<not> matches_company_patterns (lower (title @ '' '' @ content))
                 (case map_of company_patterns target of
                    None \<Rightarrow> [lower target] | Some ps \<Rightarrow> ps)
        \<longrightarrow> extract_company_from_content company_patterns title content (Some target)
              = extract_company_from_content company_patterns title content None"
    by (auto simp: extract_company_from_content_def check_target_company_first_def Let_def)
  have unknown: "target = [] \<or> target = ''Unknown''
        \<longrightarrow> extract_company_from_content company_patterns title content (Some target)
              = extract_company_from_content company_patterns title content None"
    by (auto simp: extract_company_from_content_def check_target_company_first_def Let_def)
  show ?thesis
    using re_search_word_iff [of pattern "text"] sub scan none hit miss unknown by blast
qed

theorem word_boundary_matching_amended_witness:
  "first_matching_company (lower (''Uber Interview'' @ '' '' @ ''onsite'')) company_patterns_init
     = Some ''Uber''
   \<and> (\<exists>patterns. (''Uber'', patterns) \<in> set company_patterns_init
         \<and> (\<exists>pattern \<in> set patterns.
               re_search_word pattern (lower (''Uber Interview'' @ '' '' @ ''onsite''))))
   \<and> ''Ola'' \<noteq> [] \<and> ''Ola'' \<noteq> ''Unknown''
   \<and> str_contains (lower (''Chocolate'' @ '' '' @ ''cake'')) (lower ''Ola'')
   \<and> extract_company_from_content company_patterns_init ''Chocolate'' ''cake'' (Some ''Ola'')
        = ''Ola''
   \<and> \<not> str_contains (lower (''Uber Interview'' @ '' '' @ ''onsite'')) (lower ''Ola'')
   \<and> \<not> matches_company_patterns (lower (''Uber Interview'' @ '' '' @ ''onsite''))
          (case map_of company_patterns_init ''Ola'' of
             None \<Rightarrow> [lower ''Ola''] | Some ps \<Rightarrow> ps)
   \<and> extract_company_from_content company_patterns_init ''Uber Interview'' ''onsite''
        (Some ''Ola'')
       = extract_company_from_content company_patterns_init ''Uber Interview'' ''onsite'' None
   \<and> extract_company_from_content company_patterns_init ''Unknown google'' ''x''
        (Some ''Unknown'')
       = extract_company_from_content company_patterns_init ''Unknown google'' ''x'' None
   \<and> extract_company_from_content company_patterns_init ''Unknown google'' ''x''
        (Some ''Unknown'') = ''Google''"
proof -
  let ?uber = "lower (''Uber Interview'' @ '' '' @ ''onsite'')"
  have first: "first_matching_company ?uber company_patterns_init = Some ''Uber''"
    by code_simp
  have ne: "''Ola'' \<noteq> []" "''Ola'' \<noteq> ''Unknown''" by simp_all
  have sub: "str_contains (lower (''Chocolate'' @ '' '' @ ''cake'')) (lower ''Ola'')"
    by code_simp
  have nosub: "\<not> str_contains ?uber (lower ''Ola'')"
    by code_simp
  have nomatch: "\<not> matches_company_patterns ?uber
          (case map_of company_patterns_init ''Ola'' of
             None \<Rightarrow> [lower ''Ola''] | Some ps \<Rightarrow> ps)"
    by code_simp
  note a = word_boundary_matching_amended
    [of _ "?uber" _ company_patterns_init "''Uber''" "''Chocolate''" "''cake''" "''Ola''"]
  note b = word_boundary_matching_amended
    [of _ _ _ company_patterns_init _ "''Uber Interview''" "''onsite''" "''Ola''"]
  have scan: "\<exists>patterns. (''Uber'', patterns) \<in> set company_patterns_init
         \<and> (\<exists>pattern \<in> set patterns. re_search_word pattern ?uber)"
    by (rule mp [OF a [THEN conjunct2, THEN conjunct2, THEN conjunct1] first])
  have hit: "extract_company_from_content company_patterns_init ''Chocolate'' ''cake''
        (Some ''Ola'') = ''Ola''"
    by (rule mp [OF a [THEN conjunct2, THEN conjunct2, THEN conjunct2, THEN conjunct2,
            THEN conjunct1]]) (intro conjI disjI1 ne sub)
  have miss: "extract_company_from_content company_patterns_init ''Uber Interview'' ''onsite''
        (Some ''Ola'')
       = extract_company_from_content company_patterns_init ''Uber Interview'' ''onsite'' None"
    by (rule mp [OF b [THEN conjunct2, THEN conjunct2, THEN conjunct2, THEN conjunct2,
            THEN conjunct2, THEN conjunct1]]) (intro conjI ne nosub nomatch)
  note c = word_boundary_matching_amended
    [of _ _ _ company_patterns_init _ "''Unknown google''" "''x''" "''Unknown''"]
  have unknown: "extract_company_from_content company_patterns_init ''Unknown google'' ''x''
        (Some ''Unknown'')
       = extract_company_from_content company_patterns_init ''Unknown google'' ''x'' None"
    by (rule mp [OF c [THEN conjunct2, THEN conjunct2, THEN conjunct2, THEN conjunct2,
            THEN conjunct2, THEN conjunct2]]) (rule disjI2, rule refl)
  have scanned: "extract_company_from_content company_patterns_init ''Unknown google'' ''x'' None
       = ''Google''"
    by code_simp
  have google: "extract_company_from_content company_patterns_init ''Unknown google'' ''x''
        (Some ''Unknown'') = ''Google''"
    using unknown scanned by (rule trans)
  show ?thesis
    by (intro conjI first scan ne sub hit nosub nomatch miss unknown google)
qed

section \<open>Properties of dictionaries and the error monad\<close>

lemma dict_set_keys: "set (map fst (dict_set d k v)) = insert k (set (map fst d))"
proof (induction d)
  case Nil
  then show ?case by simp
next
  case (Cons e d)
  obtain k' v' where e: "e = (k', v')" by (cases e)
  show ?case
  proof (cases "k' = k")
    case True
    with e show ?thesis by simp
  next
    case False
    with e Cons.IH show ?thesis by (simp add: insert_commute)
  qed
qed

lemma dict_set_distinct: "distinct (map fst d) \<Longrightarrow> distinct (map fst (dict_set d k v))"
proof (induction d)
  case Nil
  then show ?case by simp
next
  case (Cons e d)
  obtain k' v' where e: "e = (k', v')" by (cases e)
  show ?case
  proof (cases "k' = k")
    case True
    with Cons.prems e show ?thesis by simp
  next
    case False
    have "k' \<notin> set (map fst (dict_set d k v))"
      using Cons.prems e False unfolding dict_set_keys by simp
    with Cons e False show ?thesis by simp
  qed
qed


lemma dict_add_distinct: "distinct (map fst d) \<Longrightarrow> distinct (map fst (dict_add d k n))"
  unfolding dict_add_def by (rule dict_set_distinct)


lemma foldl_invariant:
  "I a \<Longrightarrow> (\<And>a x. I a \<Longrightarrow> x \<in> set xs \<Longrightarrow> I (f a x)) \<Longrightarrow> I (foldl f a xs)"
  by (induction xs arbitrary: a) simp_all





section \<open>Properties of the topic extractor\<close>



lemma extract_by_keywords_distinct: "distinct (map fst (extract_by_keywords self text))"
  unfolding extract_by_keywords_def
  by (rule foldl_invariant) (auto simp: Let_def dict_add_distinct)


































section \<open>Properties of storing an experience\<close>

lemma find_url_Some:
  "url \<in> set (map e_source_url rows) \<Longrightarrow>
     \<exists>existing. find (\<lambda>row. e_source_url row = url) rows = Some existing
       \<and> existing \<in> set rows \<and> e_source_url existing = url"
  by (induction rows) auto

lemma find_url_None:
  "find (\<lambda>row. e_source_url row = url) rows = None \<longleftrightarrow> url \<notin> set (map e_source_url rows)"
  by (induction rows) auto

lemma find_url_append_new:
  "find (\<lambda>row. e_source_url row = url) rows = None \<Longrightarrow> e_source_url row = url \<Longrightarrow>
     find (\<lambda>row. e_source_url row = url) (rows @ [row]) = Some row"
  by (induction rows) (auto split: if_splits)

lemma store_no_url:
  "er_source_url d = None \<Longrightarrow> store_experience now db d = (db, None)"
  by (simp add: store_experience_def)

lemma store_existing:
  "er_source_url d = Some url \<Longrightarrow>
   find (\<lambda>row. e_source_url row = url) (interview_experiences db) = Some existing \<Longrightarrow>
     store_experience now db d = (db, Some (e_id existing))"
  by (simp add: store_experience_def)

lemma store_incomplete:
  "er_source_url d = Some url \<Longrightarrow>
   find (\<lambda>row. e_source_url row = url) (interview_experiences db) = None \<Longrightarrow>
   er_company d = None \<or> er_title d = None \<or> er_content d = None
     \<or> er_source_platform d = None \<or> er_experience_date d = None \<Longrightarrow>
     store_experience now db d = (db, None)"
  unfolding store_experience_def Let_def
  by (auto split: option.splits prod.splits)

lemma store_new:
  assumes "er_source_url d = Some url"
    and "find (\<lambda>row. e_source_url row = url) (interview_experiences db) = None"
    and "er_company d = Some company_name" and "er_title d = Some title"
    and "er_content d = Some content" and "er_source_platform d = Some platform"
    and "er_experience_date d = Some date"
  shows "\<exists>db' row. store_experience now db d = (db', Some (e_id row))
           \<and> interview_experiences db' = interview_experiences db @ [row] \<and> e_source_url row = url
           \<and> e_time_weight row = (case er_time_weight d of None \<Rightarrow> 1 | Some w \<Rightarrow> w)
           \<and> e_experience_date row = date
           \<and> e_scraped_at row = now"
  using assms unfolding store_experience_def Let_def
  by (auto split: option.splits prod.splits)

lemma store_experience_again:
  "store_experience now2 (fst (store_experience now db d)) d = store_experience now db d"
proof (cases "er_source_url d")
  case None
  then show ?thesis by (simp add: store_no_url)
next
  case (Some url)
  show ?thesis
  proof (cases "find (\<lambda>row. e_source_url row = url) (interview_experiences db)")
    case (Some existing)
    then show ?thesis using \<open>er_source_url d = Some url\<close> by (simp add: store_existing)
  next
    case None
    show ?thesis
    proof (cases "er_company d = None \<or> er_title d = None \<or> er_content d = None
        \<or> er_source_platform d = None \<or> er_experience_date d = None")
      case True
      then show ?thesis
        using store_incomplete [OF \<open>er_source_url d = Some url\<close> None] by simp
    next
      case False
      then obtain company_name title content platform date where f:
        "er_company d = Some company_name" "er_title d = Some title"
        "er_content d = Some content" "er_source_platform d = Some platform"
        "er_experience_date d = Some date" by auto
      from store_new [OF \<open>er_source_url d = Some url\<close> None f, of now]
      obtain db' row where n: "store_experience now db d = (db', Some (e_id row))"
        "interview_experiences db' = interview_experiences db @ [row]" "e_source_url row = url" by blast
      have "find (\<lambda>row. e_source_url row = url) (interview_experiences db') = Some row"
        unfolding n(2) using None n(3) by (rule find_url_append_new)
      then have "store_experience now2 db' d = (db', Some (e_id row))"
        using \<open>er_source_url d = Some url\<close> by (rule store_existing [rotated])
      then show ?thesis using n(1) by simp
    qed
  qed
qed

lemma store_experience_distinct:
  assumes "distinct (map e_source_url (interview_experiences db))"
  shows "distinct (map e_source_url (interview_experiences (fst (store_experience now db d))))"
proof (cases "er_source_url d")
  case None
  then show ?thesis using assms by (simp add: store_no_url)
next
  case (Some url)
  show ?thesis
  proof (cases "find (\<lambda>row. e_source_url row = url) (interview_experiences db)")
    case (Some existing)
    then show ?thesis using \<open>er_source_url d = Some url\<close> assms by (simp add: store_existing)
  next
    case None
    show ?thesis
    proof (cases "er_company d = None \<or> er_title d = None \<or> er_content d = None
        \<or> er_source_platform d = None \<or> er_experience_date d = None")
      case True
      then show ?thesis
        using store_incomplete [OF \<open>er_source_url d = Some url\<close> None] assms by simp
    next
      case False
      then obtain company_name title content platform date where f:
        "er_company d = Some company_name" "er_title d = Some title"
        "er_content d = Some content" "er_source_platform d = Some platform"
        "er_experience_date d = Some date" by auto
      from store_new [OF \<open>er_source_url d = Some url\<close> None f, of now]
      obtain db' row where n: "store_experience now db d = (db', Some (e_id row))"
        "interview_experiences db' = interview_experiences db @ [row]" "e_source_url row = url" by blast
      have "url \<notin> set (map e_source_url (interview_experiences db))"
        using None find_url_None [of url "interview_experiences db"] by blast
      then show ?thesis using n assms by simp
    qed
  qed
qed

lemma store_all_distinct:
  "distinct (map e_source_url (interview_experiences db)) \<Longrightarrow>
     distinct (map e_source_url (interview_experiences (store_all db records)))"
proof (induction records arbitrary: db)
  case Nil
  then show ?case by simp
next
  case (Cons r records)
  obtain now d where r: "r = (now, d)" by (cases r)
  show ?case unfolding r using Cons.IH [OF store_experience_distinct [OF Cons.prems]] by simp
qed

text \<open>
  Claim C4. Storing a record whose source URL is already in the store returns the id of
  the existing row and leaves the store as it was, so that no second row is created and
  no field of the existing row changes. In every case, storing the same record again,
  right after it was stored, changes nothing and returns the same result. Storing
  preserves the uniqueness of the source URLs, and every store that is built from the
  empty store by storing records has unique source URLs.
\<close>

theorem store_experience_idempotent:
  "(er_source_url d = Some url \<and> url \<in> set (map e_source_url (interview_experiences db)) \<longrightarrow>
      (\<exists>existing. existing \<in> set (interview_experiences db) \<and> e_source_url existing = url
         \<and> store_experience now db d = (db, Some (e_id existing))))
   \<and> store_experience now2 (fst (store_experience now db d)) d = store_experience now db d
   \<and> (distinct (map e_source_url (interview_experiences db)) \<longrightarrow>
        distinct (map e_source_url (interview_experiences (fst (store_experience now db d)))))
   \<and> distinct (map e_source_url (interview_experiences (store_all empty_store records)))"
proof (intro conjI impI)
  assume a: "er_source_url d = Some url \<and> url \<in> set (map e_source_url (interview_experiences db))"
  then obtain existing where e: "find (\<lambda>row. e_source_url row = url) (interview_experiences db) = Some existing"
    "existing \<in> set (interview_experiences db)" "e_source_url existing = url"
    using find_url_Some by blast
  have "store_experience now db d = (db, Some (e_id existing))"
    using a e(1) by (simp add: store_existing)
  then show "\<exists>existing. existing \<in> set (interview_experiences db) \<and> e_source_url existing = url
         \<and> store_experience now db d = (db, Some (e_id existing))"
    using e by blast
next
  show "store_experience now2 (fst (store_experience now db d)) d = store_experience now db d"
    by (rule store_experience_again)
next
  assume "distinct (map e_source_url (interview_experiences db))"
  then show "distinct (map e_source_url (interview_experiences (fst (store_experience now db d))))"
    by (rule store_experience_distinct)
next
  show "distinct (map e_source_url (interview_experiences (store_all empty_store records)))"
    by (rule store_all_distinct) (simp add: empty_store_def)
qed

theorem store_experience_idempotent_witness:
  "er_source_url (empty_record\<lparr>er_title := Some ''SDE interview'', er_content := Some ''Two rounds'',
       er_source_url := Some ''https://leetcode.com/discuss/1'', er_source_platform := Some ''leetcode'',
       er_company := Some ''Amazon'', er_experience_date := Some 0\<rparr>)
     = Some ''https://leetcode.com/discuss/1''
   \<and> map e_source_url (interview_experiences (fst (store_experience 100 empty_store
        (empty_record\<lparr>er_title := Some ''SDE interview'', er_content := Some ''Two rounds'',
           er_source_url := Some ''https://leetcode.com/discuss/1'', er_source_platform := Some ''leetcode'',
           er_company := Some ''Amazon'', er_experience_date := Some 0\<rparr>))))
       = [''https://leetcode.com/discuss/1'']
   \<and> store_experience 200 (fst (store_experience 100 empty_store
        (empty_record\<lparr>er_title := Some ''SDE interview'', er_content := Some ''Two rounds'',
           er_source_url := Some ''https://leetcode.com/discuss/1'', er_source_platform := Some ''leetcode'',
           er_company := Some ''Amazon'', er_experience_date := Some 0\<rparr>)))
        (empty_record\<lparr>er_title := Some ''SDE interview'', er_content := Some ''Two rounds'',
           er_source_url := Some ''https://leetcode.com/discuss/1'', er_source_platform := Some ''leetcode'',
           er_company := Some ''Amazon'', er_experience_date := Some 0\<rparr>)
       = (fst (store_experience 100 empty_store
            (empty_record\<lparr>er_title := Some ''SDE interview'', er_content := Some ''Two rounds'',
               er_source_url := Some ''https://leetcode.com/discuss/1'', er_source_platform := Some ''leetcode'',
               er_company := Some ''Amazon'', er_experience_date := Some 0\<rparr>)), Some 1)
   \<and> (\<exists>existing. existing \<in> set (interview_experiences (fst (store_experience 100 empty_store
            (empty_record\<lparr>er_title := Some ''SDE interview'', er_content := Some ''Two rounds'',
               er_source_url := Some ''https://leetcode.com/discuss/1'', er_source_platform := Some ''leetcode'',
               er_company := Some ''Amazon'', er_experience_date := Some 0\<rparr>))))
         \<and> e_source_url existing = ''https://leetcode.com/discuss/1''
         \<and> e_id existing = 1)"
proof -
  define d where "d = empty_record\<lparr>er_title := Some ''SDE interview'', er_content := Some ''Two rounds'',
       er_source_url := Some ''https://leetcode.com/discuss/1'', er_source_platform := Some ''leetcode'',
       er_company := Some ''Amazon'', er_experience_date := Some 0\<rparr>"
  define db1 where "db1 = fst (store_experience 100 empty_store d)"
  have url: "er_source_url d = Some ''https://leetcode.com/discuss/1''"
    by (simp add: d_def)
  have first: "snd (store_experience 100 empty_store d) = Some 1"
    by (simp add: store_experience_def Let_def d_def empty_record_def empty_store_def)
  have urls: "map e_source_url (interview_experiences db1) = [''https://leetcode.com/discuss/1'']"
    by (simp add: db1_def store_experience_def Let_def d_def empty_record_def empty_store_def)
  have mem: "''https://leetcode.com/discuss/1'' \<in> set (map e_source_url (interview_experiences db1))"
    unfolding urls by simp
  have again: "store_experience 200 db1 d = store_experience 100 empty_store d"
    using store_experience_idempotent [of d _ empty_store 100 200] unfolding db1_def by blast
  have twice: "store_experience 200 db1 d = (db1, Some 1)"
    using again first unfolding db1_def by (simp add: prod_eq_iff)
  have "\<exists>existing. existing \<in> set (interview_experiences db1)
         \<and> e_source_url existing = ''https://leetcode.com/discuss/1''
         \<and> store_experience 200 db1 d = (db1, Some (e_id existing))"
    using store_experience_idempotent [of d "''https://leetcode.com/discuss/1''" db1 200] url mem
    by blast
  then have ex: "\<exists>existing. existing \<in> set (interview_experiences db1)
         \<and> e_source_url existing = ''https://leetcode.com/discuss/1'' \<and> e_id existing = 1"
    using twice by auto
  show ?thesis using url urls twice ex unfolding db1_def d_def by blast
qed

section \<open>Properties of the time decay\<close>








section \<open>Properties of the safe request\<close>

lemma wait_if_needed_world:
  "wait_if_needed jitter rl w domain base_delay = (rl', w') \<Longrightarrow>
     w_requests w' = w_requests w
     \<and> (w_sleeps w' = w_sleeps w
          \<or> (\<exists>t. w_sleeps w' = w_sleeps w @ [t] \<and> t \<le> 10
                \<and> t = min (fst (calculate_wait_time rl domain base_delay (w_clock w))
                           * jitter (w_jitter_draws w)) 10
                \<and> 0 < fst (calculate_wait_time rl domain base_delay (w_clock w))))
     \<and> (0 < fst (calculate_wait_time rl domain base_delay (w_clock w)) \<longrightarrow>
          w_sleeps w' \<noteq> w_sleeps w)
     \<and> rl_domain_last_request rl' domain = Some (w_clock w)"
  unfolding wait_if_needed_def Let_def sleep_def record_request_def
  by (auto split: prod.splits if_splits)

lemma safe_request_circuit_open:
  assumes "MAX_CONSECUTIVE_FAILURES cfg \<le> dd_get 0 (domain_failures self) (netloc env url)"
    and "safe_request cfg env self w url = (result, self', w')"
  shows "result = None" and "w_requests w' = w_requests w"
    and "stat_requests_made self' = stat_requests_made self"
    and "domain_failures self' = domain_failures self"
    and "seen_urls self' = seen_urls self"
    and "w_sleeps w' = w_sleeps w \<or> (\<exists>t. w_sleeps w' = w_sleeps w @ [t] \<and> t \<le> 10)"
    and "url \<notin> seen_urls self \<and> \<not> (RESPECT_ROBOTS_TXT cfg \<and> \<not> fst (can_fetch env url)) \<longrightarrow>
           rl_domain_last_request (rate_limiter self') (netloc env url) = Some (w_clock w)
           \<and> (0 < fst (calculate_wait_time (rate_limiter self) (netloc env url)
                        (if RESPECT_ROBOTS_TXT cfg then snd (can_fetch env url)
                         else REQUEST_DELAY cfg) (w_clock w))
                \<longrightarrow> w_sleeps w' \<noteq> w_sleeps w)"
proof -
  let ?delay = "if RESPECT_ROBOTS_TXT cfg then snd (can_fetch env url) else REQUEST_DELAY cfg"
  obtain rl1 w1 where wn: "wait_if_needed (jitter_values env) (rate_limiter self) w
      (netloc env url) ?delay = (rl1, w1)" by (metis prod.exhaust)
  note ww = wait_if_needed_world [OF wn]
  have r: "(result, self', w') =
      (if url \<in> seen_urls self
       then (None, self\<lparr>stat_duplicates_found := stat_duplicates_found self + 1\<rparr>, w)
       else if RESPECT_ROBOTS_TXT cfg \<and> \<not> fst (can_fetch env url)
       then (None, self\<lparr>stat_robots_blocked := stat_robots_blocked self + 1\<rparr>, w)
       else (None, self\<lparr>rate_limiter := rl1\<rparr>, w1))"
    using assms wn unfolding safe_request_def Let_def by (simp split: if_splits)
  show "result = None" using r by (simp split: if_splits)
  show "w_requests w' = w_requests w" using r ww by (auto split: if_splits)
  show "stat_requests_made self' = stat_requests_made self" using r by (auto split: if_splits)
  show "domain_failures self' = domain_failures self" using r by (auto split: if_splits)
  show "seen_urls self' = seen_urls self" using r by (auto split: if_splits)
  show "w_sleeps w' = w_sleeps w \<or> (\<exists>t. w_sleeps w' = w_sleeps w @ [t] \<and> t \<le> 10)"
    using r ww by (auto split: if_splits)
  show "url \<notin> seen_urls self \<and> \<not> (RESPECT_ROBOTS_TXT cfg \<and> \<not> fst (can_fetch env url)) \<longrightarrow>
           rl_domain_last_request (rate_limiter self') (netloc env url) = Some (w_clock w)
           \<and> (0 < fst (calculate_wait_time (rate_limiter self) (netloc env url) ?delay (w_clock w))
                \<longrightarrow> w_sleeps w' \<noteq> w_sleeps w)"
    using r ww by (auto split: if_splits)
qed

text \<open>
  Claim C7, as stated, fails: the check of the failure counter comes after the wait of
  the rate limiter. In the scenario the first two calls meet three 403 answers, so that
  the counter of the host stands at 3, the threshold; the third call returns \<open>None\<close>
  and requests nothing, but it sleeps for 0.9 seconds before it does so.
\<close>

theorem short_circuit_sleeps_counterexample:
  "MAX_CONSECUTIVE_FAILURES Config_default = 3
   \<and> dd_get 0 (domain_failures (fst (snd second_call)))
         (netloc forbidden_env ''https://www.glassdoor.com/c'') = 3
   \<and> stat_forbidden_errors (fst (snd second_call)) = 3
   \<and> w_sleeps (snd (snd second_call)) = [5, 10]
   \<and> fst third_call = None
   \<and> w_requests (snd (snd third_call)) = w_requests (snd (snd second_call))
   \<and> w_sleeps (snd (snd third_call)) = w_sleeps (snd (snd second_call)) @ [9 / 10]"
  by code_simp

text \<open>
  Claim C7, amended. When the failure counter of the host of a URL has reached
  \<open>MAX_CONSECUTIVE_FAILURES\<close>, \<open>safe_request\<close> for that URL returns \<open>None\<close> without
  requesting the URL: the log of requests, the request counter, the failure counters
  and the set of seen URLs stay as they were. The wait of the rate limiter comes first:
  unless the URL was seen before or is blocked by robots.txt, the limiter records the
  call at the current time, and the call sleeps once, for at most 10 seconds, exactly
  when the limiter computes a positive wait; otherwise it does not sleep.
\<close>

theorem short_circuit_after_wait:
  "MAX_CONSECUTIVE_FAILURES cfg \<le> dd_get 0 (domain_failures self) (netloc env url)
   \<and> safe_request cfg env self w url = (result, self', w')
   \<longrightarrow> result = None
       \<and> w_requests w' = w_requests w
       \<and> stat_requests_made self' = stat_requests_made self
       \<and> domain_failures self' = domain_failures self
       \<and> seen_urls self' = seen_urls self
       \<and> (w_sleeps w' = w_sleeps w \<or> (\<exists>t. w_sleeps w' = w_sleeps w @ [t] \<and> t \<le> 10))
       \<and> (url \<notin> seen_urls self \<and> \<not> (RESPECT_ROBOTS_TXT cfg \<and> \<not> fst (can_fetch env url)) \<longrightarrow>
             rl_domain_last_request (rate_limiter self') (netloc env url) = Some (w_clock w)
             \<and> (0 < fst (calculate_wait_time (rate_limiter self) (netloc env url)
                          (if RESPECT_ROBOTS_TXT cfg then snd (can_fetch env url)
                           else REQUEST_DELAY cfg) (w_clock w))
                  \<longrightarrow> w_sleeps w' \<noteq> w_sleeps w))"
proof
  assume a: "MAX_CONSECUTIVE_FAILURES cfg \<le> dd_get 0 (domain_failures self) (netloc env url)
   \<and> safe_request cfg env self w url = (result, self', w')"
  then have a1: "MAX_CONSECUTIVE_FAILURES cfg \<le> dd_get 0 (domain_failures self) (netloc env url)"
    and a2: "safe_request cfg env self w url = (result, self', w')" by simp_all
  show "result = None
       \<and> w_requests w' = w_requests w
       \<and> stat_requests_made self' = stat_requests_made self
       \<and> domain_failures self' = domain_failures self
       \<and> seen_urls self' = seen_urls self
       \<and> (w_sleeps w' = w_sleeps w \<or> (\<exists>t. w_sleeps w' = w_sleeps w @ [t] \<and> t \<le> 10))
       \<and> (url \<notin> seen_urls self \<and> \<not> (RESPECT_ROBOTS_TXT cfg \<and> \<not> fst (can_fetch env url)) \<longrightarrow>
             rl_domain_last_request (rate_limiter self') (netloc env url) = Some (w_clock w)
             \<and> (0 < fst (calculate_wait_time (rate_limiter self) (netloc env url)
                          (if RESPECT_ROBOTS_TXT cfg then snd (can_fetch env url)
                           else REQUEST_DELAY cfg) (w_clock w))
                  \<longrightarrow> w_sleeps w' \<noteq> w_sleeps w))"
    by (intro conjI safe_request_circuit_open [OF a1 a2])
qed

theorem short_circuit_after_wait_witness:
  "MAX_CONSECUTIVE_FAILURES Config_default
     \<le> dd_get 0 (domain_failures (fst (snd second_call)))
         (netloc forbidden_env ''https://www.glassdoor.com/c'')
   \<and> ''https://www.glassdoor.com/c'' \<notin> seen_urls (fst (snd second_call))
   \<and> \<not> RESPECT_ROBOTS_TXT Config_default
   \<and> fst third_call = None
   \<and> w_requests (snd (snd third_call)) = w_requests (snd (snd second_call))
   \<and> stat_requests_made (fst (snd third_call)) = stat_requests_made (fst (snd second_call))
   \<and> domain_failures (fst (snd third_call)) = domain_failures (fst (snd second_call))
   \<and> rl_domain_last_request (rate_limiter (fst (snd third_call)))
         (netloc forbidden_env ''https://www.glassdoor.com/c'')
       = Some (w_clock (snd (snd second_call)))"
proof -
  have h1: "MAX_CONSECUTIVE_FAILURES Config_default
     \<le> dd_get 0 (domain_failures (fst (snd second_call)))
         (netloc forbidden_env ''https://www.glassdoor.com/c'')"
    by code_simp
  have h2: "safe_request Config_default forbidden_env (fst (snd second_call))
      (snd (snd second_call)) ''https://www.glassdoor.com/c''
      = (fst third_call, fst (snd third_call), snd (snd third_call))"
    by (simp add: third_call_def)
  have unseen: "''https://www.glassdoor.com/c'' \<notin> seen_urls (fst (snd second_call))"
    by code_simp
  have norobots: "\<not> RESPECT_ROBOTS_TXT Config_default"
    by (simp add: Config_default_def)
  note c7 = short_circuit_after_wait
    [of Config_default "fst (snd second_call)" forbidden_env "''https://www.glassdoor.com/c''"
        "snd (snd second_call)" "fst third_call" "fst (snd third_call)" "snd (snd third_call)",
     THEN mp, OF conjI [OF h1 h2]]
  have last: "rl_domain_last_request (rate_limiter (fst (snd third_call)))
         (netloc forbidden_env ''https://www.glassdoor.com/c'')
       = Some (w_clock (snd (snd second_call)))"
    using c7 unseen norobots by blast
  show ?thesis
    by (intro conjI h1 unseen norobots last c7 [THEN conjunct1]
        c7 [THEN conjunct2, THEN conjunct1]
        c7 [THEN conjunct2, THEN conjunct2, THEN conjunct1]
        c7 [THEN conjunct2, THEN conjunct2, THEN conjunct2, THEN conjunct1])
qed

section \<open>Properties of the insight aggregator\<close>


















end
